theory Spec2Isabelle
  imports Complex_Main
begin
section \<open>Conventions\<close>

text \<open>
  The development embeds three services of the repository: the repository classifier
  (\<^verbatim>\<open>services/type-detector.ts\<close>), the prompt engine
  (\<^verbatim>\<open>services/prompt-engine.ts\<close>) and the analysis orchestrator
  (\<^verbatim>\<open>services/analysis-orchestrator.ts\<close>).

  \<^item> JavaScript numbers are modelled as exact rationals (\<^typ>\<open>rat\<close>). The source
    computes with IEEE doubles; every numeric fact proved below is either an order fact
    that rounding preserves (a quotient \<open>x / m\<close> with \<open>0 \<le> x \<le> m\<close> lies in \<open>[0,1]\<close>,
    \<open>x / x = 1\<close>) or is evaluated at inputs that stay away from the comparison
    thresholds by more than \<open>1/100\<close>.
  \<^item> Strings are \<^typ>\<open>string\<close>; \<^verbatim>\<open>toLowerCase\<close> is modelled on the ASCII letters.
  \<^item> A JavaScript \<^verbatim>\<open>Set\<close> built from an array is the list of its first
    occurrences, in insertion order.
  \<^item> An optional property is an \<^typ>\<open>'a option\<close>.
\<close>

subsection \<open>String helpers of the JavaScript runtime\<close>

definition upper_lower_table :: "(char \<times> char) list" where
  "upper_lower_table =
     zip ''ABCDEFGHIJKLMNOPQRSTUVWXYZ'' ''abcdefghijklmnopqrstuvwxyz''"

definition toLowerChar :: "char \<Rightarrow> char" where
  "toLowerChar c = (case map_of upper_lower_table c of Some d \<Rightarrow> d | None \<Rightarrow> c)"

definition toLowerCase :: "string \<Rightarrow> string" where
  "toLowerCase s = map toLowerChar s"

fun startsWith :: "string \<Rightarrow> string \<Rightarrow> bool" where
  "startsWith s [] = True"
| "startsWith [] (p # ps) = False"
| "startsWith (c # cs) (p # ps) = (c = p \<and> startsWith cs ps)"

fun js_includes :: "string \<Rightarrow> string \<Rightarrow> bool" where
  "js_includes [] sub = (sub = [])"
| "js_includes (c # cs) sub = (startsWith (c # cs) sub \<or> js_includes cs sub)"

definition endsWith :: "string \<Rightarrow> string \<Rightarrow> bool" where
  "endsWith s suf = startsWith (rev s) (rev suf)"

definition js_Set :: "'a list \<Rightarrow> 'a list" where
  "js_Set xs = rev (remdups (rev xs))"

definition truthy_string :: "string option \<Rightarrow> bool" where
  "truthy_string v = (case v of None \<Rightarrow> False | Some s \<Rightarrow> s \<noteq> [])"

section \<open>Repository classifier (services/type-detector.ts)\<close>

subsection \<open>Data model (types/repository.ts)\<close>

datatype RepositoryType =
  Backend | Frontend | Mobile | InfraAsCode | Library | Monorepo | Unknown

datatype IndicatorKind = FileKind | DependencyKind | PatternKind | StructureKind

record TypeIndicator =
  ind_type :: IndicatorKind
  ind_name :: string
  ind_path :: "string option"
  confidence :: rat
  suggestedType :: RepositoryType

text \<open>Of \<^verbatim>\<open>FileInfo\<close> the classifier's scoring reads \<^verbatim>\<open>path\<close> and \<^verbatim>\<open>name\<close> only.\<close>

record FileInfo =
  file_path :: string
  file_name :: string

datatype EntryType = FileEntry | DirectoryEntry

datatype DirectoryStructure =
  DirectoryStructure (ds_name: string) (ds_type: EntryType)
    (ds_children: "DirectoryStructure list option")

text \<open>
  \<^verbatim>\<open>readPackageJson\<close> returns the parsed manifest, or \<^verbatim>\<open>null\<close> when the file is
  unreadable or is not JSON. The record keeps what \<^verbatim>\<open>detectFromDependencies\<close> reads of a
  parsed manifest: the keys of \<^verbatim>\<open>dependencies\<close> and \<^verbatim>\<open>devDependencies\<close>, and the
  truthiness of \<^verbatim>\<open>main\<close>, \<^verbatim>\<open>exports\<close> and \<^verbatim>\<open>types\<close>.
\<close>

record PackageJson =
  pj_dependencies :: "string list"
  pj_devDependencies :: "string list"
  pj_main :: bool
  pj_exports :: bool
  pj_types :: bool

text \<open>
  What \<^verbatim>\<open>detect\<close> receives and reads: the file list, the directory tree, and the
  results of the four manifest reads (\<^verbatim>\<open>repoManager.readFile\<close> catches every error and
  returns \<^verbatim>\<open>null\<close>).
\<close>

record DetectInput =
  files :: "FileInfo list"
  directoryStructure :: DirectoryStructure
  packageJson :: "PackageJson option"
  requirementsTxt :: "string option"
  goMod :: "string option"
  cargoToml :: "string option"

text \<open>
  The result without \<^verbatim>\<open>techStack\<close> and \<^verbatim>\<open>subTypes\<close>: neither is read when
  \<^verbatim>\<open>primaryType\<close>, \<^verbatim>\<open>confidence\<close> and \<^verbatim>\<open>indicators\<close> are computed.
\<close>

record TypeDetectionResult =
  primaryType :: RepositoryType
  result_confidence :: rat
  result_indicators :: "TypeIndicator list"

subsection \<open>Constants\<close>

fun DETECTION_WEIGHTS :: "IndicatorKind \<Rightarrow> rat" where
  "DETECTION_WEIGHTS FileKind = 3 / 10"
| "DETECTION_WEIGHTS DependencyKind = 4 / 10"
| "DETECTION_WEIGHTS PatternKind = 2 / 10"
| "DETECTION_WEIGHTS StructureKind = 1 / 10"

fun TYPE_PRIORITY :: "RepositoryType \<Rightarrow> rat" where
  "TYPE_PRIORITY InfraAsCode = 100"
| "TYPE_PRIORITY Library = 90"
| "TYPE_PRIORITY Monorepo = 85"
| "TYPE_PRIORITY Mobile = 80"
| "TYPE_PRIORITY Frontend = 70"
| "TYPE_PRIORITY Backend = 60"
| "TYPE_PRIORITY Unknown = 0"

definition TYPE_DETECTION_PATTERNS :: "(RepositoryType \<times> string list) list" where
  "TYPE_DETECTION_PATTERNS =
    [(Backend, [''package.json'', ''requirements.txt'', ''go.mod'', ''Cargo.toml'',
                ''pom.xml'', ''build.gradle'', ''Gemfile'', ''composer.json'']),
     (Frontend, [''package.json'', ''next.config.js'', ''nuxt.config.js'', ''vite.config.ts'',
                 ''webpack.config.js'', ''angular.json'', ''svelte.config.js'']),
     (Mobile, [''ios/'', ''android/'', ''App.tsx'', ''pubspec.yaml'', ''Podfile'',
               ''build.gradle'', ''capacitor.config.json'']),
     (InfraAsCode, [''main.tf'', ''terraform/'', ''Pulumi.yaml'', ''ansible/'', ''kubernetes/'',
                    ''k8s/'', ''helm/'', ''docker-compose.yml'']),
     (Library, [''package.json'', ''setup.py'', ''pyproject.toml'', ''Cargo.toml'', ''lib/'']),
     (Monorepo, [''pnpm-workspace.yaml'', ''lerna.json'', ''nx.json'', ''turbo.json'',
                 ''packages/'', ''apps/'']),
     (Unknown, [])]"

text \<open>The keys of the \<^verbatim>\<open>scores\<close> object literal, in the order \<^verbatim>\<open>Object.entries\<close> lists them.\<close>

definition score_keys :: "RepositoryType list" where
  "score_keys = [Backend, Frontend, Mobile, InfraAsCode, Library, Monorepo, Unknown]"

subsection \<open>Collecting indicators\<close>

definition indicator ::
  "IndicatorKind \<Rightarrow> string \<Rightarrow> string option \<Rightarrow> rat \<Rightarrow> RepositoryType \<Rightarrow> TypeIndicator" where
  "indicator k n p c t =
     \<lparr>ind_type = k, ind_name = n, ind_path = p, confidence = c, suggestedType = t\<rparr>"

text \<open>A guarded \<^verbatim>\<open>indicators.push(...)\<close>.\<close>

definition push_if :: "bool \<Rightarrow> TypeIndicator \<Rightarrow> TypeIndicator list" where
  "push_if b i = (if b then [i] else [])"

text \<open>The body of the inner loop of \<^verbatim>\<open>detectFromFiles\<close>, for one pattern.\<close>

definition detectFromFiles_pattern ::
  "string list \<Rightarrow> string list \<Rightarrow> RepositoryType \<Rightarrow> string \<Rightarrow> TypeIndicator list" where
  "detectFromFiles_pattern fileNames filePaths repoType pattern =
     (let normalizedPattern = remove1 CHR ''/'' (toLowerCase pattern) in
      if normalizedPattern \<in> set fileNames
      then [indicator FileKind pattern None (7 / 10) repoType]
      else if endsWith pattern ''/''
      then (let dirName = toLowerCase (butlast pattern) in
            case find (\<lambda>filePath. startsWith filePath (dirName @ ''/'')
                                 \<or> js_includes filePath (''/'' @ dirName @ ''/'')) filePaths of
              Some filePath \<Rightarrow> [indicator FileKind pattern (Some filePath) (6 / 10) repoType]
            | None \<Rightarrow> [])
      else [])"

definition detectFromFiles :: "FileInfo list \<Rightarrow> TypeIndicator list" where
  "detectFromFiles fs =
     (let fileNames = js_Set (map (\<lambda>f. toLowerCase (file_name f)) fs);
          filePaths = js_Set (map (\<lambda>f. toLowerCase (file_path f)) fs)
      in concat (map (\<lambda>(repoType, patterns).
                   concat (map (detectFromFiles_pattern fileNames filePaths repoType) patterns))
                 TYPE_DETECTION_PATTERNS))"

definition checkDependencies :: "string list \<Rightarrow> TypeIndicator list" where
  "checkDependencies depNames =
     push_if (''react'' \<in> set depNames \<or> ''react-dom'' \<in> set depNames)
       (indicator DependencyKind ''react'' None (8 / 10) Frontend)
   @ push_if (''vue'' \<in> set depNames)
       (indicator DependencyKind ''vue'' None (8 / 10) Frontend)
   @ push_if (''@angular/core'' \<in> set depNames)
       (indicator DependencyKind ''@angular/core'' None (8 / 10) Frontend)
   @ push_if (''svelte'' \<in> set depNames)
       (indicator DependencyKind ''svelte'' None (8 / 10) Frontend)
   @ push_if (''next'' \<in> set depNames)
       (indicator DependencyKind ''next'' None (7 / 10) Frontend)
   @ push_if (''express'' \<in> set depNames)
       (indicator DependencyKind ''express'' None (8 / 10) Backend)
   @ push_if (''@nestjs/core'' \<in> set depNames)
       (indicator DependencyKind ''@nestjs/core'' None (9 / 10) Backend)
   @ push_if (''fastify'' \<in> set depNames)
       (indicator DependencyKind ''fastify'' None (8 / 10) Backend)
   @ push_if (''koa'' \<in> set depNames)
       (indicator DependencyKind ''koa'' None (8 / 10) Backend)
   @ push_if (''react-native'' \<in> set depNames)
       (indicator DependencyKind ''react-native'' None (95 / 100) Mobile)
   @ push_if (''@ionic/angular'' \<in> set depNames \<or> ''@ionic/react'' \<in> set depNames
              \<or> ''@ionic/vue'' \<in> set depNames)
       (indicator DependencyKind ''ionic'' None (9 / 10) Mobile)
   @ push_if (''@capacitor/core'' \<in> set depNames)
       (indicator DependencyKind ''@capacitor/core'' None (85 / 100) Mobile)
   @ push_if (''lerna'' \<in> set depNames \<or> ''nx'' \<in> set depNames \<or> ''turbo'' \<in> set depNames)
       (indicator DependencyKind ''monorepo-tool'' None (9 / 10) Monorepo)"

definition checkPythonDependencies :: "string \<Rightarrow> TypeIndicator list" where
  "checkPythonDependencies requirements =
     (let deps = toLowerCase requirements in
        push_if (js_includes deps ''django'')
          (indicator DependencyKind ''django'' None (9 / 10) Backend)
      @ push_if (js_includes deps ''flask'')
          (indicator DependencyKind ''flask'' None (85 / 100) Backend)
      @ push_if (js_includes deps ''fastapi'')
          (indicator DependencyKind ''fastapi'' None (9 / 10) Backend)
      @ push_if (js_includes deps ''kivy'' \<or> js_includes deps ''beeware'')
          (indicator DependencyKind ''python-mobile'' None (8 / 10) Mobile))"

definition checkGoDependencies :: "string \<Rightarrow> TypeIndicator list" where
  "checkGoDependencies gm =
        push_if (js_includes gm ''github.com/gin-gonic/gin'')
          (indicator DependencyKind ''gin'' None (9 / 10) Backend)
      @ push_if (js_includes gm ''github.com/gofiber/fiber'')
          (indicator DependencyKind ''fiber'' None (9 / 10) Backend)
      @ push_if (js_includes gm ''github.com/labstack/echo'')
          (indicator DependencyKind ''echo'' None (9 / 10) Backend)"

definition checkRustDependencies :: "string \<Rightarrow> TypeIndicator list" where
  "checkRustDependencies ct =
        push_if (js_includes ct ''actix-web'')
          (indicator DependencyKind ''actix-web'' None (9 / 10) Backend)
      @ push_if (js_includes ct ''rocket'')
          (indicator DependencyKind ''rocket'' None (9 / 10) Backend)
      @ push_if (js_includes ct ''tauri'')
          (indicator DependencyKind ''tauri'' None (85 / 100) Frontend)"

definition detectFromDependencies :: "DetectInput \<Rightarrow> TypeIndicator list" where
  "detectFromDependencies inp =
     (case packageJson inp of
        None \<Rightarrow> []
      | Some pj \<Rightarrow>
          checkDependencies (pj_dependencies pj @ pj_devDependencies pj)
          @ push_if (pj_main pj \<or> pj_exports pj \<or> pj_types pj)
              (indicator PatternKind ''Library exports'' None (6 / 10) Library))
   @ (if truthy_string (requirementsTxt inp)
      then checkPythonDependencies (the (requirementsTxt inp)) else [])
   @ (if truthy_string (goMod inp)
      then checkGoDependencies (the (goMod inp)) else [])
   @ (if truthy_string (cargoToml inp)
      then checkRustDependencies (the (cargoToml inp)) else [])"

definition detectFromStructure :: "DirectoryStructure \<Rightarrow> TypeIndicator list" where
  "detectFromStructure structure =
     (case ds_children structure of
        None \<Rightarrow> []
      | Some children \<Rightarrow>
         (let topLevelDirs =
                map (\<lambda>c. toLowerCase (ds_name c))
                    (filter (\<lambda>c. ds_type c = DirectoryEntry) children);
              has = (\<lambda>d. d \<in> set topLevelDirs)
          in push_if (has ''packages'' \<or> has ''apps'')
               (indicator StructureKind ''monorepo-structure'' None (7 / 10) Monorepo)
           @ push_if (has ''terraform'' \<or> has ''infrastructure'')
               (indicator StructureKind ''infra-directory'' None (8 / 10) InfraAsCode)
           @ push_if (has ''ios'' \<and> has ''android'')
               (indicator StructureKind ''mobile-platforms'' None (9 / 10) Mobile)
           @ push_if (has ''components'' \<or> has ''pages'')
               (indicator StructureKind ''frontend-structure'' None (5 / 10) Frontend)
           @ push_if (has ''controllers'' \<or> has ''routes'' \<or> has ''api'')
               (indicator StructureKind ''backend-structure'' None (5 / 10) Backend)
           @ push_if ((has ''lib'' \<or> has ''src'')
                      \<and> (has ''test'' \<or> has ''tests'') \<and> has ''examples'')
               (indicator StructureKind ''library-structure'' None (6 / 10) Library)))"

text \<open>The three collection steps of \<^verbatim>\<open>detect\<close>, pushing onto one array.\<close>

definition collectIndicators :: "DetectInput \<Rightarrow> TypeIndicator list" where
  "collectIndicators inp =
     detectFromFiles (files inp) @ detectFromDependencies inp
     @ detectFromStructure (directoryStructure inp)"

subsection \<open>Scoring\<close>

definition calculateTypeScores :: "TypeIndicator list \<Rightarrow> RepositoryType \<Rightarrow> rat" where
  "calculateTypeScores indicators =
     (let scores = fold (\<lambda>i s. s(suggestedType i :=
                                   s (suggestedType i) + confidence i * DETECTION_WEIGHTS (ind_type i)))
                        indicators (\<lambda>_. 0);
          maxScore = fold max (map scores score_keys) (1 / 100)
      in (\<lambda>t. scores t / maxScore))"

text \<open>
  \<^verbatim>\<open>Array.prototype.sort\<close> with a comparison function, modelled as a stable insertion
  sort: an element is placed before the first element that the comparison ranks strictly
  after it. For a comparison that is a consistent ordering this is the result every
  conforming engine returns; for an inconsistent one ECMAScript leaves the order to the
  engine.
\<close>

fun sort_insert :: "('a \<Rightarrow> 'a \<Rightarrow> rat) \<Rightarrow> 'a \<Rightarrow> 'a list \<Rightarrow> 'a list" where
  "sort_insert cmp x [] = [x]"
| "sort_insert cmp x (y # ys) =
     (if cmp x y < 0 then x # y # ys else y # sort_insert cmp x ys)"

definition array_sort :: "('a \<Rightarrow> 'a \<Rightarrow> rat) \<Rightarrow> 'a list \<Rightarrow> 'a list" where
  "array_sort cmp xs = fold (sort_insert cmp) xs []"

text \<open>The comparison function passed to \<^verbatim>\<open>sort\<close> in \<^verbatim>\<open>detect\<close>.\<close>

definition score_compare :: "RepositoryType \<times> rat \<Rightarrow> RepositoryType \<times> rat \<Rightarrow> rat" where
  "score_compare a b =
     (let scoreDiff = snd b - snd a in
      if \<bar>scoreDiff\<bar> < 1 / 10 then TYPE_PRIORITY (fst b) - TYPE_PRIORITY (fst a)
      else scoreDiff)"

definition sortedTypes :: "(RepositoryType \<Rightarrow> rat) \<Rightarrow> (RepositoryType \<times> rat) list" where
  "sortedTypes typeScores =
     array_sort score_compare
       (filter (\<lambda>(t, score). score > 0) (map (\<lambda>t. (t, typeScores t)) score_keys))"

definition detect :: "DetectInput \<Rightarrow> TypeDetectionResult" where
  "detect inp =
     (let indicators = collectIndicators inp;
          typeScores = calculateTypeScores indicators;
          sorted = sortedTypes typeScores;
          primary = (case sorted of [] \<Rightarrow> Unknown | (t, score) # _ \<Rightarrow> t);
          conf = (case sorted of [] \<Rightarrow> 0 | (t, score) # _ \<Rightarrow> score)
      in \<lparr>primaryType = primary,
          result_confidence = min conf 1,
          result_indicators = filter (\<lambda>i. confidence i > 3 / 10) indicators\<rparr>)"


subsection \<open>Predicates and inputs used in the statements about the classifier\<close>

text \<open>What every indicator pushed by the three collection steps satisfies.\<close>

definition well_formed_indicator :: "TypeIndicator \<Rightarrow> bool" where
  "well_formed_indicator i =
     (1 / 2 \<le> confidence i \<and> confidence i \<le> 1 \<and> suggestedType i \<noteq> Unknown)"

text \<open>The aggregate score of a type before normalisation, and the normalising maximum.\<close>

definition raw_score :: "TypeIndicator list \<Rightarrow> RepositoryType \<Rightarrow> rat" where
  "raw_score inds t =
     sum_list (map (\<lambda>i. confidence i * DETECTION_WEIGHTS (ind_type i))
                   (filter (\<lambda>i. suggestedType i = t) inds))"

definition maxScore :: "TypeIndicator list \<Rightarrow> rat" where
  "maxScore inds = fold max (map (raw_score inds) score_keys) (1 / 100)"


text \<open>
  The selection rule in the words of the specification: of two types, the one with the
  higher normalised score is preferred, except that when the scores differ by less than
  \<open>0.1\<close> the one ranked higher in the priority order is preferred. A type is the
  specification's winner when it has a positive score and is preferred to every other type
  with a positive score.
\<close>

definition spec_preferred ::
  "(RepositoryType \<Rightarrow> rat) \<Rightarrow> RepositoryType \<Rightarrow> RepositoryType \<Rightarrow> bool" where
  "spec_preferred s a b =
     (if \<bar>s a - s b\<bar> < 1 / 10 then TYPE_PRIORITY b < TYPE_PRIORITY a else s b < s a)"

definition spec_winner :: "(RepositoryType \<Rightarrow> rat) \<Rightarrow> RepositoryType \<Rightarrow> bool" where
  "spec_winner s t =
     (0 < s t \<and> list_all (\<lambda>u. u \<noteq> t \<and> 0 < s u \<longrightarrow> spec_preferred s t u) score_keys)"

text \<open>A repository that holds the single file \<^verbatim>\<open>main.tf\<close>.\<close>

definition main_tf_input :: DetectInput where
  "main_tf_input =
     \<lparr>files = [\<lparr>file_path = ''main.tf'', file_name = ''main.tf''\<rparr>],
      directoryStructure =
        DirectoryStructure ''repo'' DirectoryEntry
          (Some [DirectoryStructure ''main.tf'' FileEntry None]),
      packageJson = None, requirementsTxt = None, goMod = None, cargoToml = None\<rparr>"


text \<open>
  A repository that holds a \<^verbatim>\<open>package.json\<close> with a \<^verbatim>\<open>main\<close> entry, the dependency
  \<^verbatim>\<open>react-native\<close> and the development dependency \<^verbatim>\<open>lerna\<close>. Its normalised scores
  are backend \<open>21/38\<close>, frontend \<open>21/38\<close>, mobile \<open>1\<close>, library \<open>33/38\<close> and monorepo
  \<open>18/19\<close>.
\<close>

definition react_native_lerna_input :: DetectInput where
  "react_native_lerna_input =
     \<lparr>files = [\<lparr>file_path = ''package.json'', file_name = ''package.json''\<rparr>],
      directoryStructure =
        DirectoryStructure ''repo'' DirectoryEntry
          (Some [DirectoryStructure ''package.json'' FileEntry None]),
      packageJson = Some \<lparr>pj_dependencies = [''react-native''],
                           pj_devDependencies = [''lerna''],
                           pj_main = True, pj_exports = False, pj_types = False\<rparr>,
      requirementsTxt = None, goMod = None, cargoToml = None\<rparr>"


section \<open>Prompt engine (services/prompt-engine.ts)\<close>

subsection \<open>Data model (types/prompts.ts)\<close>

text \<open>
  \<^verbatim>\<open>PromptConfig\<close> without its \<^verbatim>\<open>name\<close> and \<^verbatim>\<open>description\<close>, which no function
  modelled here reads. \<^verbatim>\<open>targetType\<close> is \<open>None\<close> for \<^verbatim>\<open>'all'\<close>.
\<close>

datatype FindingType = Architecture | Security | Performance | Documentation | Testing | Maintainability
datatype VariableType = StringVar | ArrayVar | ObjectVar | FileContentVar | DirectoryStructureVar
datatype OutputFormat = MarkdownFormat | JsonFormat | StructuredFormat

record PromptVariable =
  var_name :: string
  var_type :: VariableType
  var_required :: bool

record PromptConfig =
  prompt_id :: string
  targetType :: "RepositoryType option"
  category :: FindingType
  order :: rat
  template :: string
  variables :: "PromptVariable list"
  contextRequired :: "string list"
  outputFormat :: OutputFormat

subsection \<open>Dependency resolution\<close>

text \<open>
  \<^verbatim>\<open>resolvePromptDependencies\<close> keeps three mutable collections: the array
  \<^verbatim>\<open>resolved\<close>, the set \<^verbatim>\<open>pending\<close>, and the set \<^verbatim>\<open>visited\<close> that one top-level
  call of \<^verbatim>\<open>resolve\<close> creates and every nested call shares and extends.
\<close>

record ResolveState =
  visited :: "string set"
  pending :: "string set"
  resolved :: "PromptConfig list"

text \<open>
  The closure \<^verbatim>\<open>resolve\<close> and its loop over \<^verbatim>\<open>prompt.contextRequired\<close>. The first
  argument bounds the depth of nested calls; \<open>None\<close> means the bound was reached. The bound
  is an artefact of the model: \<open>resolve_total\<close> shows that a bound above the number of
  pending prompts is never reached, and \<open>resolve_fuel_mono\<close> that a larger bound gives the
  same result.
\<close>

fun resolve :: "nat \<Rightarrow> (string \<rightharpoonup> PromptConfig) \<Rightarrow> string \<Rightarrow> ResolveState \<Rightarrow> ResolveState option"
  and resolve_deps :: "nat \<Rightarrow> (string \<rightharpoonup> PromptConfig) \<Rightarrow> string list \<Rightarrow> ResolveState \<Rightarrow> ResolveState option"
where
  "resolve 0 promptMap promptId st = None"
| "resolve (Suc n) promptMap promptId st =
     (if promptId \<notin> pending st then Some st
      else if promptId \<in> visited st then Some st
      else case promptMap promptId of
        None \<Rightarrow> Some st
      | Some prompt \<Rightarrow>
          (case resolve_deps n promptMap (contextRequired prompt)
                  (st\<lparr>visited := insert promptId (visited st)\<rparr>) of
             None \<Rightarrow> None
           | Some st' \<Rightarrow>
               Some (st'\<lparr>pending := pending st' - {promptId},
                         resolved := resolved st' @ [prompt]\<rparr>)))"
| "resolve_deps n promptMap [] st = Some st"
| "resolve_deps n promptMap (depId # deps) st =
     (if promptMap depId \<noteq> None
      then (case resolve n promptMap depId st of
              None \<Rightarrow> None
            | Some st' \<Rightarrow> resolve_deps n promptMap deps st')
      else resolve_deps n promptMap deps st)"

text \<open>The final loop \<^verbatim>\<open>for (const prompt of prompts) resolve(prompt.id)\<close>: each call
  starts with a fresh \<^verbatim>\<open>visited\<close> set.\<close>

fun resolve_all ::
  "nat \<Rightarrow> (string \<rightharpoonup> PromptConfig) \<Rightarrow> PromptConfig list \<Rightarrow> string set \<times> PromptConfig list
     \<Rightarrow> (string set \<times> PromptConfig list) option" where
  "resolve_all n promptMap [] acc = Some acc"
| "resolve_all n promptMap (prompt # rest) (pend, res) =
     (case resolve n promptMap (prompt_id prompt)
             \<lparr>visited = {}, pending = pend, resolved = res\<rparr> of
        None \<Rightarrow> None
      | Some st' \<Rightarrow> resolve_all n promptMap rest (pending st', resolved st'))"

text \<open>\<^verbatim>\<open>new Map(prompts.map((p) => [p.id, p]))\<close>: a later entry replaces an earlier one
  with the same id.\<close>

definition promptMap_of :: "PromptConfig list \<Rightarrow> (string \<rightharpoonup> PromptConfig)" where
  "promptMap_of prompts = fold (\<lambda>p m. m(prompt_id p \<mapsto> p)) prompts Map.empty"

definition resolvePromptDependencies_fuel :: "nat \<Rightarrow> PromptConfig list \<Rightarrow> PromptConfig list option" where
  "resolvePromptDependencies_fuel n prompts =
     map_option snd
       (resolve_all n (promptMap_of prompts) prompts (set (map prompt_id prompts), []))"

definition resolvePromptDependencies :: "PromptConfig list \<Rightarrow> PromptConfig list option" where
  "resolvePromptDependencies prompts =
     resolvePromptDependencies_fuel (Suc (length prompts)) prompts"


subsection \<open>Predicates and inputs used in the statements about the resolver\<close>

definition ids :: "PromptConfig list \<Rightarrow> string list" where
  "ids ps = map prompt_id ps"

definition keyed :: "(string \<rightharpoonup> PromptConfig) \<Rightarrow> bool" where
  "keyed pm = (\<forall>k p. pm k = Some p \<longrightarrow> prompt_id p = k)"

definition resolve_inv :: "(string \<rightharpoonup> PromptConfig) \<Rightarrow> string set \<Rightarrow> PromptConfig list \<Rightarrow> bool" where
  "resolve_inv pm pend res =
     (distinct (ids res) \<and> set (ids res) \<inter> pend = {} \<and> (\<forall>q\<in>set res. pm (prompt_id q) = Some q))"

definition resolve_step :: "(string \<rightharpoonup> PromptConfig) \<Rightarrow> ResolveState \<Rightarrow> ResolveState \<Rightarrow> bool" where
  "resolve_step pm st st' =
     (visited st \<subseteq> visited st' \<and> pending st' \<subseteq> pending st
      \<and> pending st \<inter> visited st \<subseteq> pending st'
      \<and> set (ids (resolved st')) \<union> pending st' = set (ids (resolved st)) \<union> pending st
      \<and> (resolve_inv pm (pending st) (resolved st) \<longrightarrow> resolve_inv pm (pending st') (resolved st')))"

definition occurrences :: "string \<Rightarrow> PromptConfig list \<Rightarrow> nat" where
  "occurrences pid ps = length (filter (\<lambda>q. prompt_id q = pid) ps)"

text \<open>A task with the given id and dependencies.\<close>

definition task :: "string \<Rightarrow> string list \<Rightarrow> PromptConfig" where
  "task i ds = \<lparr>prompt_id = i, targetType = None, category = Architecture, order = 1,
     template = [], variables = [], contextRequired = ds, outputFormat = JsonFormat\<rparr>"



subsection \<open>Rendering (renderPrompt, resolveVariable, formatValue)\<close>

text \<open>
  The rendering context. The records \<^verbatim>\<open>fileContents\<close>, \<^verbatim>\<open>previousContext\<close> and
  \<^verbatim>\<open>configFiles\<close> are association lists in insertion order, with distinct keys.
\<close>

record PromptContext =
  ctx_repoUrl :: string
  ctx_repoName :: string
  ctx_branch :: string
  ctx_commitHash :: string
  ctx_repoType :: RepositoryType
  ctx_techStack :: "string list"
  ctx_directoryStructure :: string
  ctx_fileList :: "string list"
  ctx_fileContents :: "(string \<times> string) list"
  previousContext :: "(string \<times> string) list"
  ctx_configFiles :: "(string \<times> string) list"

text \<open>
  The values \<^verbatim>\<open>resolveVariable\<close> returns: \<^verbatim>\<open>null\<close>, a string, an array of strings,
  a record of strings, or a member that the context object inherits from
  \<^verbatim>\<open>Object.prototype\<close> (the operator \<^verbatim>\<open>in\<close> also finds those).
\<close>

datatype Value =
  VNull | VString string | VArray "string list" | VObject "(string \<times> string) list"
  | VInherited string

fun RepositoryType_text :: "RepositoryType \<Rightarrow> string" where
  "RepositoryType_text Backend = ''backend''"
| "RepositoryType_text Frontend = ''frontend''"
| "RepositoryType_text Mobile = ''mobile''"
| "RepositoryType_text InfraAsCode = ''infra-as-code''"
| "RepositoryType_text Library = ''library''"
| "RepositoryType_text Monorepo = ''monorepo''"
| "RepositoryType_text Unknown = ''unknown''"

definition Object_prototype_names :: "string list" where
  "Object_prototype_names =
     [''constructor'', ''__defineGetter__'', ''__defineSetter__'', ''hasOwnProperty'',
      ''__lookupGetter__'', ''__lookupSetter__'', ''isPrototypeOf'', ''propertyIsEnumerable'',
      ''toString'', ''valueOf'', ''__proto__'', ''toLocaleString'']"

text \<open>\<^verbatim>\<open>path.split('/').pop() || ''\<close>\<close>

definition fileName_of :: "string \<Rightarrow> string" where
  "fileName_of path = rev (takeWhile (\<lambda>c. c \<noteq> CHR ''/'') (rev path))"

definition endsWith_any :: "string \<Rightarrow> string list \<Rightarrow> bool" where
  "endsWith_any s sufs = list_ex (endsWith s) sufs"

definition includes_any :: "string \<Rightarrow> string list \<Rightarrow> bool" where
  "includes_any s subs = list_ex (js_includes s) subs"

definition by_fileName :: "string list \<Rightarrow> PromptContext \<Rightarrow> (string \<times> string) list" where
  "by_fileName patterns ctx =
     filter (\<lambda>(path, content). fileName_of path \<in> set patterns) (ctx_fileContents ctx)"

definition extractPackageFiles :: "PromptContext \<Rightarrow> (string \<times> string) list" where
  "extractPackageFiles =
     by_fileName [''package.json'', ''requirements.txt'', ''Pipfile'', ''pyproject.toml'',
       ''go.mod'', ''Cargo.toml'', ''pom.xml'', ''build.gradle'', ''Gemfile'', ''composer.json'']"

definition extractLockFiles :: "PromptContext \<Rightarrow> (string \<times> string) list" where
  "extractLockFiles =
     by_fileName [''package-lock.json'', ''yarn.lock'', ''pnpm-lock.yaml'', ''Pipfile.lock'',
       ''poetry.lock'', ''go.sum'', ''Cargo.lock'', ''Gemfile.lock'', ''composer.lock'']"

definition extractTestConfig :: "PromptContext \<Rightarrow> (string \<times> string) list" where
  "extractTestConfig =
     by_fileName [''jest.config.js'', ''jest.config.ts'', ''vitest.config.ts'', ''karma.conf.js'',
       ''pytest.ini'', ''setup.cfg'', ''tox.ini'', ''.mocharc.json'', ''ava.config.js'']"

definition extractApiSpec :: "PromptContext \<Rightarrow> string" where
  "extractApiSpec ctx =
     (case by_fileName [''openapi.yaml'', ''openapi.json'', ''swagger.yaml'', ''swagger.json'',
                        ''api.yaml'', ''api.json''] ctx of
        [] \<Rightarrow> [] | (path, content) # _ \<Rightarrow> content)"

text \<open>
  The regular expressions of the remaining extractors, as string tests. \<^verbatim>\<open>/x$/\<close> is a
  suffix test, \<^verbatim>\<open>/x/i\<close> a substring test on the lower-cased path, and
  \<^verbatim>\<open>/test_.*\.py$/\<close> asks for \<^verbatim>\<open>test_\<close> on the last line of the path before its final
  \<^verbatim>\<open>.py\<close> (\<^verbatim>\<open>.\<close> does not match a line break).
\<close>

definition js_suffixes :: "string list" where
  "js_suffixes = [''.js'', ''.jsx'', ''.ts'', ''.tsx'']"

definition matches_test_py :: "string \<Rightarrow> bool" where
  "matches_test_py path =
     (endsWith path ''.py'' \<and>
      js_includes
        (rev (takeWhile (\<lambda>c. c \<noteq> CHR 0x0A \<and> c \<noteq> CHR 0x0D)
                (rev (take (length path - 3) path))))
        ''test_'')"

definition extractTestFiles :: "PromptContext \<Rightarrow> (string \<times> string) list" where
  "extractTestFiles ctx =
     filter (\<lambda>(path, content).
        endsWith_any path (map (\<lambda>s. ''.test'' @ s) js_suffixes)
        \<or> endsWith_any path (map (\<lambda>s. ''.spec'' @ s) js_suffixes)
        \<or> endsWith path ''_test.go'' \<or> endsWith path ''_test.py'' \<or> matches_test_py path
        \<or> endsWith path ''Test.java'' \<or> endsWith path ''.test.rs'')
       (ctx_fileContents ctx)"

definition extractRouteFiles :: "PromptContext \<Rightarrow> (string \<times> string) list" where
  "extractRouteFiles ctx =
     filter (\<lambda>(path, content).
        includes_any (toLowerCase path)
          [''route/'', ''routes/'', ''controller/'', ''controllers/'', ''handler/'',
           ''handlers/'', ''api/'', ''endpoint/'', ''endpoints/''])
       (ctx_fileContents ctx)"

definition extractComponentFiles :: "PromptContext \<Rightarrow> (string \<times> string) list" where
  "extractComponentFiles ctx =
     filter (\<lambda>(path, content).
        includes_any (toLowerCase path) [''component/'', ''components/'']
        \<or> endsWith_any path [''.vue'', ''.tsx'', ''.component.ts''])
       (ctx_fileContents ctx)"

definition extractStateFiles :: "PromptContext \<Rightarrow> (string \<times> string) list" where
  "extractStateFiles ctx =
     filter (\<lambda>(path, content).
        includes_any (toLowerCase path)
          [''store/'', ''redux'', ''context'', ''state'', ''vuex'', ''pinia'', ''zustand'',
           ''recoil'', ''jotai''])
       (ctx_fileContents ctx)"

definition extractDocsFiles :: "PromptContext \<Rightarrow> (string \<times> string) list" where
  "extractDocsFiles ctx =
     filter (\<lambda>(path, content).
        includes_any (toLowerCase path) [''doc/'', ''docs/'', ''documentation/'', ''wiki/'']
        \<or> endsWith path ''.md'')
       (ctx_fileContents ctx)"

text \<open>\<^verbatim>\<open>s.split('\n')\<close> and \<^verbatim>\<open>lines.join(sep)\<close>.\<close>

fun split_lines :: "string \<Rightarrow> string list" where
  "split_lines [] = [[]]"
| "split_lines (c # cs) =
     (if c = CHR 0x0A then [] # split_lines cs
      else (case split_lines cs of [] \<Rightarrow> [[c]] | l # ls \<Rightarrow> (c # l) # ls))"

fun js_join :: "string \<Rightarrow> string list \<Rightarrow> string" where
  "js_join sep [] = []"
| "js_join sep [x] = x"
| "js_join sep (x # y # ys) = x @ sep @ js_join sep (y # ys)"

text \<open>The loop of \<^verbatim>\<open>extractCodeComments\<close>, with its counter.\<close>

fun extractCodeComments_loop :: "nat \<Rightarrow> (string \<times> string) list \<Rightarrow> (string \<times> string) list" where
  "extractCodeComments_loop count [] = []"
| "extractCodeComments_loop count ((path, content) # rest) =
     (if count \<ge> 5 then []
      else if endsWith_any path (js_suffixes @ [''.py'', ''.go'', ''.java'', ''.rs''])
      then (let lines = take 100 (split_lines content);
                hasComments =
                  list_ex (\<lambda>line. includes_any line
                     [''//'', ''/*'', ''#'', [CHR 0x22, CHR 0x22, CHR 0x22],
                      [CHR 0x27, CHR 0x27, CHR 0x27]]) lines
            in if hasComments
               then (path, js_join [CHR 0x0A] lines) # extractCodeComments_loop (Suc count) rest
               else extractCodeComments_loop count rest)
      else extractCodeComments_loop count rest)"

definition extractCodeComments :: "PromptContext \<Rightarrow> (string \<times> string) list" where
  "extractCodeComments ctx = extractCodeComments_loop 0 (ctx_fileContents ctx)"

text \<open>\<^verbatim>\<open>record[key] || other\<close> on a record of strings: the value when it is a non-empty
  string.\<close>

definition truthy_lookup :: "(string \<times> string) list \<Rightarrow> string \<Rightarrow> string option" where
  "truthy_lookup record key =
     (case map_of record key of Some v \<Rightarrow> (if v = [] then None else Some v) | None \<Rightarrow> None)"

definition own_property :: "PromptContext \<Rightarrow> string \<Rightarrow> Value option" where
  "own_property ctx name =
     map_of [(''repoUrl'', VString (ctx_repoUrl ctx)),
             (''repoName'', VString (ctx_repoName ctx)),
             (''branch'', VString (ctx_branch ctx)),
             (''commitHash'', VString (ctx_commitHash ctx)),
             (''repoType'', VString (RepositoryType_text (ctx_repoType ctx))),
             (''techStack'', VArray (ctx_techStack ctx)),
             (''directoryStructure'', VString (ctx_directoryStructure ctx)),
             (''fileList'', VArray (ctx_fileList ctx)),
             (''fileContents'', VObject (ctx_fileContents ctx)),
             (''previousContext'', VObject (previousContext ctx)),
             (''configFiles'', VObject (ctx_configFiles ctx))] name"

definition resolveVariable :: "string \<Rightarrow> PromptContext \<Rightarrow> Value" where
  "resolveVariable name ctx =
     (case own_property ctx name of
        Some v \<Rightarrow> v
      | None \<Rightarrow>
         if name \<in> set Object_prototype_names then VInherited name
         else if name = ''sourceFiles'' then VObject (ctx_fileContents ctx)
         else if name = ''configFiles'' then VObject (ctx_configFiles ctx)
         else if name = ''packageFiles'' then VObject (extractPackageFiles ctx)
         else if name = ''lockFiles'' then VObject (extractLockFiles ctx)
         else if name = ''testFiles'' then VObject (extractTestFiles ctx)
         else if name = ''routeFiles'' then VObject (extractRouteFiles ctx)
         else if name = ''componentFiles'' then VObject (extractComponentFiles ctx)
         else if name = ''stateFiles'' then VObject (extractStateFiles ctx)
         else if name = ''readme'' then
           VString (case truthy_lookup (ctx_fileContents ctx) ''README.md'' of
                      Some v \<Rightarrow> v
                    | None \<Rightarrow> (case truthy_lookup (ctx_fileContents ctx) ''readme.md'' of
                                 Some v \<Rightarrow> v | None \<Rightarrow> []))
         else if name = ''docs'' then VObject (extractDocsFiles ctx)
         else if name = ''codeComments'' then VObject (extractCodeComments ctx)
         else if name = ''testConfig'' then VObject (extractTestConfig ctx)
         else if name = ''apiSpec'' then VString (extractApiSpec ctx)
         else VNull)"

text \<open>
  \<^verbatim>\<open>formatObjectAsMarkdown\<close> on a record of strings (every value takes the first branch),
  and on an array of strings, whose entries are its indices.
\<close>

definition formatObjectAsMarkdown :: "(string \<times> string) list \<Rightarrow> string" where
  "formatObjectAsMarkdown obj =
     js_join [CHR 0x0A, CHR 0x0A]
       (map (\<lambda>(key, v). ''### '' @ key @ [CHR 0x0A] @ [CHR 0x60, CHR 0x60, CHR 0x60, CHR 0x0A]
                         @ v @ [CHR 0x0A, CHR 0x60, CHR 0x60, CHR 0x60]) obj)"

fun decimal :: "nat \<Rightarrow> string" where
  "decimal n =
     (if n < 10 then [char_of (48 + n)] else decimal (n div 10) @ [char_of (48 + n mod 10)])"

definition array_entries :: "string list \<Rightarrow> (string \<times> string) list" where
  "array_entries xs = zip (map decimal [0 ..< length xs]) xs"

text \<open>
  \<^verbatim>\<open>String(value)\<close>. For an inherited member it is the text the engine prints for a
  built-in function (V8's), or \<^verbatim>\<open>[object Object]\<close> for \<^verbatim>\<open>__proto__\<close>.
\<close>

definition inherited_is_object :: "string \<Rightarrow> bool" where
  "inherited_is_object name = (name = ''__proto__'')"

fun js_String :: "Value \<Rightarrow> string" where
  "js_String VNull = ''null''"
| "js_String (VString s) = s"
| "js_String (VArray xs) = js_join '','' xs"
| "js_String (VObject obj) = ''[object Object]''"
| "js_String (VInherited name) =
     (if inherited_is_object name then ''[object Object]''
      else ''function '' @ (if name = ''constructor'' then ''Object'' else name)
           @ ''() { [native code] }'')"

definition not_available :: string where
  "not_available = ''[Not available]''"

fun formatValue :: "Value \<Rightarrow> VariableType \<Rightarrow> string" where
  "formatValue VNull ty = not_available"
| "formatValue v StringVar = js_String v"
| "formatValue v ArrayVar = (case v of VArray xs \<Rightarrow> js_join '', '' xs | _ \<Rightarrow> js_String v)"
| "formatValue v ObjectVar =
     (case v of
        VObject obj \<Rightarrow> formatObjectAsMarkdown obj
      | VArray xs \<Rightarrow> formatObjectAsMarkdown (array_entries xs)
      | VInherited name \<Rightarrow> (if inherited_is_object name then [] else js_String v)
      | _ \<Rightarrow> js_String v)"
| "formatValue v FileContentVar = js_String v"
| "formatValue v DirectoryStructureVar = js_String v"

text \<open>
  \<^verbatim>\<open>String.prototype.replace\<close> with a global regular expression. A regular expression
  is modelled by its matcher: the length of its match at the start of a text, if it matches
  there (the expressions used have no anchors and no look-behind). The scan goes left to
  right over non-overlapping matches; after an empty match it advances by one character.
  The replacer receives the matched text, the text before the match and the text after it.
\<close>

type_synonym regex = "string \<Rightarrow> nat option"

function js_replace_all ::
  "regex \<Rightarrow> (string \<Rightarrow> string \<Rightarrow> string \<Rightarrow> string) \<Rightarrow> string \<Rightarrow> string \<Rightarrow> string" where
  "js_replace_all re replacer before s =
     (case re s of
        None \<Rightarrow> (case s of [] \<Rightarrow> []
                  | c # cs \<Rightarrow> c # js_replace_all re replacer (before @ [c]) cs)
      | Some n \<Rightarrow>
          (let k = min n (length s) in
           if k = 0
           then replacer [] before s
                @ (case s of [] \<Rightarrow> []
                   | c # cs \<Rightarrow> c # js_replace_all re replacer (before @ [c]) cs)
           else replacer (take k s) before (drop k s)
                @ js_replace_all re replacer (before @ take k s) (drop k s)))"
  by pat_completeness auto
termination
  by (relation "measure (\<lambda>(re, replacer, before, s). length s)") auto

text \<open>
  \<^verbatim>\<open>GetSubstitution\<close> for a replacement string, when the expression has no capture
  groups: \<^verbatim>\<open>$$\<close>, \<^verbatim>\<open>$&\<close>, the dollar-backtick and dollar-apostrophe patterns are
  expanded, every other \<^verbatim>\<open>$\<close> is literal.
\<close>

fun GetSubstitution :: "string \<Rightarrow> string \<Rightarrow> string \<Rightarrow> string \<Rightarrow> string" where
  "GetSubstitution replacement matched before after =
     (case replacement of
        [] \<Rightarrow> []
      | [c] \<Rightarrow> [c]
      | c # d # rest \<Rightarrow>
          if c = CHR ''$'' \<and> d = CHR ''$'' then CHR ''$'' # GetSubstitution rest matched before after
          else if c = CHR ''$'' \<and> d = CHR ''&'' then matched @ GetSubstitution rest matched before after
          else if c = CHR ''$'' \<and> d = CHR 0x60 then before @ GetSubstitution rest matched before after
          else if c = CHR ''$'' \<and> d = CHR 0x27 then after @ GetSubstitution rest matched before after
          else c # GetSubstitution (d # rest) matched before after)"

text \<open>
  \<^verbatim>\<open>new RegExp(placeholder, 'g')\<close> for a placeholder \<^verbatim>\<open>{{name}}\<close>. When the name is
  made of letters, digits, \<^verbatim>\<open>_\<close> and \<^verbatim>\<open>-\<close> and starts with a letter, no character of
  the pattern is a regular-expression operator (a brace that does not form a quantifier is
  a literal character), so the expression matches exactly the placeholder text. This is the
  case for every variable of the catalogue; the model is the code's behaviour for such names
  only (\<open>plain_name\<close>).
\<close>

definition literal_regex :: "string \<Rightarrow> regex" where
  "literal_regex pat s = (if startsWith s pat then Some (length pat) else None)"

definition is_letter :: "char \<Rightarrow> bool" where
  "is_letter c = (c \<in> set ''abcdefghijklmnopqrstuvwxyzABCDEFGHIJKLMNOPQRSTUVWXYZ'')"

definition is_name_char :: "char \<Rightarrow> bool" where
  "is_name_char c = (is_letter c \<or> c \<in> set ''0123456789_-'')"

definition plain_name :: "string \<Rightarrow> bool" where
  "plain_name name = (case name of [] \<Rightarrow> False | c # cs \<Rightarrow> is_letter c \<and> list_all is_name_char cs)"

definition placeholder_of :: "string \<Rightarrow> string" where
  "placeholder_of name = ''{{'' @ name @ ''}}''"

text \<open>One iteration of the loop over \<^verbatim>\<open>prompt.variables\<close>.\<close>

definition render_variable :: "PromptContext \<Rightarrow> PromptVariable \<Rightarrow> string \<Rightarrow> string" where
  "render_variable ctx variable content =
     (let v = resolveVariable (var_name variable) ctx;
          placeholder = placeholder_of (var_name variable)
      in if js_includes content placeholder
         then (let rendered = formatValue v (var_type variable)
               in js_replace_all (literal_regex placeholder) (GetSubstitution rendered) [] content)
         else content)"

text \<open>
  \<^verbatim>\<open>/\{\{previousContext\.([a-z-]+)\}\}/gi\<close>: the text \<^verbatim>\<open>{{previousContext.\<close> in any
  letter case, the longest run of letters and hyphens (at least one), and \<^verbatim>\<open>}}\<close>.
\<close>

definition nestedRegex :: regex where
  "nestedRegex s =
     (if startsWith (toLowerCase (take 18 s)) ''{{previouscontext.''
      then (let run = takeWhile (\<lambda>c. is_letter c \<or> c = CHR ''-'') (drop 18 s)
            in if run \<noteq> [] \<and> startsWith (drop (18 + length run) s) ''}}''
               then Some (18 + length run + 2) else None)
      else None)"

text \<open>The replacer callback of the second pass; \<open>promptId\<close> is the capture group. A key
  that the record lacks but \<^verbatim>\<open>Object.prototype\<close> has yields that member.\<close>

definition nested_replacer :: "PromptContext \<Rightarrow> string \<Rightarrow> string \<Rightarrow> string \<Rightarrow> string" where
  "nested_replacer ctx matched before after =
     (let promptId = butlast (butlast (drop 18 matched)) in
      case map_of (previousContext ctx) promptId of
        Some previousResult \<Rightarrow>
          (if previousResult \<noteq> [] then previousResult
           else ''[No previous context for '' @ promptId @ '']'')
      | None \<Rightarrow>
          (if promptId \<in> set Object_prototype_names then js_String (VInherited promptId)
           else ''[No previous context for '' @ promptId @ '']''))"

text \<open>The rendered prompt without \<^verbatim>\<open>variables\<close> (the record of values used).\<close>

record RenderedPrompt =
  rendered_promptId :: string
  content :: string
  rendered_outputFormat :: OutputFormat

definition renderPrompt :: "PromptConfig \<Rightarrow> PromptContext \<Rightarrow> RenderedPrompt" where
  "renderPrompt prompt ctx =
     (let content1 = fold (render_variable ctx) (variables prompt) (template prompt);
          content2 = js_replace_all nestedRegex (nested_replacer ctx) [] content1
      in \<lparr>rendered_promptId = prompt_id prompt, content = content2,
          rendered_outputFormat = outputFormat prompt\<rparr>)"


section \<open>Properties of the repository classifier\<close>

subsection \<open>Collected indicators\<close>

lemma wf_indicator [simp]:
  "well_formed_indicator (indicator k n p c t) = (1 / 2 \<le> c \<and> c \<le> 1 \<and> t \<noteq> Unknown)"
  by (simp add: well_formed_indicator_def indicator_def)

lemma set_push_if [simp]: "x \<in> set (push_if b i) = (b \<and> x = i)"
  by (auto simp: push_if_def)

lemma detectFromFiles_pattern_wf:
  "i \<in> set (detectFromFiles_pattern fns fps rt p) \<Longrightarrow> rt \<noteq> Unknown \<Longrightarrow> well_formed_indicator i"
  by (auto simp: detectFromFiles_pattern_def Let_def split: if_splits option.splits)

lemma patterns_not_unknown:
  "(rt, ps) \<in> set TYPE_DETECTION_PATTERNS \<Longrightarrow> p \<in> set ps \<Longrightarrow> rt \<noteq> Unknown"
  by (auto simp: TYPE_DETECTION_PATTERNS_def)

lemma detectFromFiles_wf: "i \<in> set (detectFromFiles fs) \<Longrightarrow> well_formed_indicator i"
  unfolding detectFromFiles_def Let_def
  by (auto dest: patterns_not_unknown detectFromFiles_pattern_wf)

lemma checkDependencies_wf: "i \<in> set (checkDependencies ds) \<Longrightarrow> well_formed_indicator i"
  unfolding checkDependencies_def by auto

lemma checkPythonDependencies_wf: "i \<in> set (checkPythonDependencies r) \<Longrightarrow> well_formed_indicator i"
  unfolding checkPythonDependencies_def Let_def by auto

lemma checkGoDependencies_wf: "i \<in> set (checkGoDependencies r) \<Longrightarrow> well_formed_indicator i"
  unfolding checkGoDependencies_def by auto

lemma checkRustDependencies_wf: "i \<in> set (checkRustDependencies r) \<Longrightarrow> well_formed_indicator i"
  unfolding checkRustDependencies_def by auto

lemma detectFromDependencies_wf: "i \<in> set (detectFromDependencies inp) \<Longrightarrow> well_formed_indicator i"
  unfolding detectFromDependencies_def
  by (auto split: option.splits if_splits
      dest: checkDependencies_wf checkPythonDependencies_wf checkGoDependencies_wf checkRustDependencies_wf)

lemma detectFromStructure_wf: "i \<in> set (detectFromStructure d) \<Longrightarrow> well_formed_indicator i"
  unfolding detectFromStructure_def Let_def
  by (auto split: option.splits)

lemma collectIndicators_wf: "i \<in> set (collectIndicators inp) \<Longrightarrow> well_formed_indicator i"
  unfolding collectIndicators_def
  by (auto dest: detectFromFiles_wf detectFromDependencies_wf detectFromStructure_wf)











lemma set_sort_insert [simp]: "set (sort_insert cmp x ys) = insert x (set ys)"
  by (induction ys) auto

lemma set_array_sort [simp]: "set (array_sort cmp xs) = set xs"
proof -
  have "set (fold (sort_insert cmp) xs acc) = set xs \<union> set acc" for acc
    by (induction xs arbitrary: acc) auto
  then show ?thesis by (simp add: array_sort_def)
qed





lemma TYPE_PRIORITY_inj: "TYPE_PRIORITY a = TYPE_PRIORITY b \<Longrightarrow> a = b"
  by (cases a; cases b) simp_all



lemma primaryType_eq:
  "primaryType (detect inp) =
     (case sortedTypes (calculateTypeScores (collectIndicators inp)) of [] \<Rightarrow> Unknown | (t, sc) # _ \<Rightarrow> t)"
  by (simp add: detect_def Let_def)

lemma result_confidence_eq:
  "result_confidence (detect inp) =
     min (case sortedTypes (calculateTypeScores (collectIndicators inp)) of [] \<Rightarrow> 0 | (t, sc) # _ \<Rightarrow> sc) 1"
  by (simp add: detect_def Let_def)










lemma main_tf_collect:
  "collectIndicators main_tf_input = [indicator FileKind ''main.tf'' None (7 / 10) InfraAsCode]"
  by code_simp


lemma main_tf_sortedTypes:
  "sortedTypes (calculateTypeScores [indicator FileKind ''main.tf'' None (7 / 10) InfraAsCode])
     = [(InfraAsCode, 1)]"
  by code_simp

lemma react_native_lerna_collect:
  "collectIndicators react_native_lerna_input =
     [indicator FileKind ''package.json'' None (7 / 10) Backend,
      indicator FileKind ''package.json'' None (7 / 10) Frontend,
      indicator FileKind ''package.json'' None (7 / 10) Library,
      indicator DependencyKind ''react-native'' None (95 / 100) Mobile,
      indicator DependencyKind ''monorepo-tool'' None (9 / 10) Monorepo,
      indicator PatternKind ''Library exports'' None (6 / 10) Library]"
  by code_simp

subsection \<open>Scores and the primary type\<close>





text \<open>
  C2, as stated, fails. The pairwise rule of the specification is not transitive: for the
  \<^verbatim>\<open>react-native\<close> / \<^verbatim>\<open>lerna\<close> package, monorepo (\<open>18/19\<close>) is preferred to mobile (\<open>1\<close>)
  and library (\<open>33/38\<close>) is preferred to monorepo, both by priority within \<open>0.1\<close>, while
  mobile is preferred to library by score. No type is preferred to all others, whatever order
  the sort produces.
\<close>

lemma no_winner:
  "\<not> spec_winner (calculateTypeScores (collectIndicators react_native_lerna_input)) t"
  unfolding react_native_lerna_collect
  by (cases t) (hypsubst, code_simp)+






text \<open>
  C9. When the only indicator collected is the file indicator for \<^verbatim>\<open>main.tf\<close>, the
  primary type is \<^verbatim>\<open>infra-as-code\<close> and the confidence is \<open>1\<close>, the largest value a
  confidence takes, hence at or above every threshold in \<open>[0,1]\<close>.
\<close>

theorem main_tf_only_is_infra_as_code:
  assumes "collectIndicators inp = [indicator FileKind ''main.tf'' None (7 / 10) InfraAsCode]"
  shows "primaryType (detect inp) = InfraAsCode \<and> result_confidence (detect inp) = 1"
  by (simp add: primaryType_eq result_confidence_eq assms main_tf_sortedTypes)

theorem main_tf_only_is_infra_as_code_witness:
  "collectIndicators main_tf_input = [indicator FileKind ''main.tf'' None (7 / 10) InfraAsCode]
   \<and> primaryType (detect main_tf_input) = InfraAsCode
   \<and> result_confidence (detect main_tf_input) = 1"
  using main_tf_only_is_infra_as_code[OF main_tf_collect] main_tf_collect by blast


text \<open>
  C10. The indicators of the result are exactly the collected indicators whose confidence
  exceeds \<open>0.3\<close>, in the order collected.
\<close>

theorem reported_indicators_filtered:
  "result_indicators (detect inp) = filter (\<lambda>i. 3 / 10 < confidence i) (collectIndicators inp)"
  by (simp add: detect_def Let_def)


text \<open>Every indicator the three collection steps push has a confidence of at least \<open>0.5\<close>, so
  the filter removes none of them.\<close>

lemma collected_indicators_all_reported: "result_indicators (detect inp) = collectIndicators inp"
proof -
  have "3 / 10 < confidence i" if "i \<in> set (collectIndicators inp)" for i
    using collectIndicators_wf[OF that] by (simp add: well_formed_indicator_def)
  then show ?thesis by (simp add: detect_def Let_def)
qed



section \<open>Properties of the dependency resolver\<close>

lemma resolve_step_refl: "resolve_step pm st st"
  by (simp add: resolve_step_def)

lemma resolve_step_trans:
  "resolve_step pm st st' \<Longrightarrow> resolve_step pm st' st'' \<Longrightarrow> resolve_step pm st st''"
  unfolding resolve_step_def by blast

lemma resolve_step_finish:
  assumes step: "resolve_step pm (st\<lparr>visited := insert pid (visited st)\<rparr>) st2"
    and pid: "pid \<in> pending st" "pid \<notin> visited st"
    and pr: "pm pid = Some prompt" "prompt_id prompt = pid"
  shows "resolve_step pm st
           (st2\<lparr>pending := pending st2 - {pid}, resolved := resolved st2 @ [prompt]\<rparr>)"
proof -
  from step have v: "insert pid (visited st) \<subseteq> visited st2"
    and p: "pending st2 \<subseteq> pending st"
    and k: "pending st \<inter> insert pid (visited st) \<subseteq> pending st2"
    and u: "set (ids (resolved st2)) \<union> pending st2 = set (ids (resolved st)) \<union> pending st"
    and i: "resolve_inv pm (pending st) (resolved st) \<Longrightarrow> resolve_inv pm (pending st2) (resolved st2)"
    by (simp_all add: resolve_step_def)
  from k pid have in2: "pid \<in> pending st2" by auto
  have 1: "visited st \<subseteq> visited st2" using v by auto
  have 2: "pending st2 - {pid} \<subseteq> pending st" using p by auto
  have 3: "pending st \<inter> visited st \<subseteq> pending st2 - {pid}" using k pid by auto
  have 4: "set (ids (resolved st2 @ [prompt])) \<union> (pending st2 - {pid})
           = set (ids (resolved st)) \<union> pending st"
    using u in2 pr by (auto simp: ids_def)
  have 5: "resolve_inv pm (pending st2 - {pid}) (resolved st2 @ [prompt])"
    if "resolve_inv pm (pending st) (resolved st)"
  proof -
    from i[OF that] have d: "distinct (ids (resolved st2))"
      and dj: "set (ids (resolved st2)) \<inter> pending st2 = {}"
      and m: "\<forall>q\<in>set (resolved st2). pm (prompt_id q) = Some q"
      by (simp_all add: resolve_inv_def)
    from dj in2 have "pid \<notin> set (ids (resolved st2))" by auto
    with d dj m pr show ?thesis by (auto simp: resolve_inv_def ids_def)
  qed
  from 1 2 3 4 5 show ?thesis by (simp add: resolve_step_def)
qed

lemma resolve_sound:
  "keyed pm \<Longrightarrow> resolve n pm pid st = Some st' \<Longrightarrow>
     resolve_step pm st st' \<and> (pid \<notin> visited st \<and> pm pid \<noteq> None \<longrightarrow> pid \<notin> pending st')"
  "keyed pm \<Longrightarrow> resolve_deps n pm ds st = Some st' \<Longrightarrow> resolve_step pm st st'"
proof (induction n pm pid st and n pm ds st arbitrary: st' and st' rule: resolve_resolve_deps.induct)
  case (1 pm pid st)
  then show ?case by simp
next
  case (2 n pm pid st)
  show ?case
  proof (cases "pid \<notin> pending st \<or> pid \<in> visited st \<or> pm pid = None")
    case True
    with "2.prems" have "st' = st" by (auto split: if_splits)
    with True show ?thesis by (auto simp: resolve_step_refl)
  next
    case False
    then obtain prompt where pr: "pm pid = Some prompt" by auto
    let ?st1 = "st\<lparr>visited := insert pid (visited st)\<rparr>"
    from False have g: "\<not> pid \<notin> pending st" "\<not> pid \<in> visited st" by auto
    from False pr "2.prems" obtain st2 where
      r: "resolve_deps n pm (contextRequired prompt) ?st1 = Some st2"
      and st': "st' = st2\<lparr>pending := pending st2 - {pid}, resolved := resolved st2 @ [prompt]\<rparr>"
      by (auto split: option.splits)
    have s12: "resolve_step pm ?st1 st2"
      by (rule "2.IH"[OF g pr "2.prems"(1) r])
    have "prompt_id prompt = pid" using "2.prems"(1) pr by (auto simp: keyed_def)
    with s12 g pr have "resolve_step pm st st'"
      unfolding st' by (intro resolve_step_finish) auto
    then show ?thesis by (simp add: st')
  qed
next
  case (3 n pm st)
  then show ?case by (simp add: resolve_step_refl)
next
  case (4 n pm depId deps st)
  show ?case
  proof (cases "pm depId \<noteq> None")
    case True
    with "4.prems" obtain st1 where a: "resolve n pm depId st = Some st1"
      and b: "resolve_deps n pm deps st1 = Some st'"
      by (auto split: option.splits)
    from "4.IH"(1)[OF True "4.prems"(1) a] have "resolve_step pm st st1" by simp
    moreover from "4.IH"(2)[OF True a "4.prems"(1) b] have "resolve_step pm st1 st'" .
    ultimately show ?thesis by (rule resolve_step_trans)
  next
    case False
    with "4.prems" "4.IH"(3) show ?thesis by simp
  qed
qed


lemma resolve_step_card:
  assumes "resolve_step pm st st'" "finite (pending st)"
  shows "finite (pending st') \<and> card (pending st' - visited st') \<le> card (pending st - visited st)"
proof -
  from assms(1) have "pending st' - visited st' \<subseteq> pending st - visited st"
    and "pending st' \<subseteq> pending st"
    by (auto simp: resolve_step_def)
  with assms(2) show ?thesis by (auto intro: card_mono finite_subset)
qed

lemma resolve_total:
  "keyed pm \<Longrightarrow> finite (pending st) \<Longrightarrow> card (pending st - visited st) < n
     \<Longrightarrow> \<exists>st'. resolve n pm pid st = Some st'"
  "keyed pm \<Longrightarrow> finite (pending st) \<Longrightarrow> card (pending st - visited st) < n
     \<Longrightarrow> \<exists>st'. resolve_deps n pm ds st = Some st'"
proof (induction n pm pid st and n pm ds st rule: resolve_resolve_deps.induct)
  case (1 pm pid st)
  then show ?case by simp
next
  case (2 n pm pid st)
  show ?case
  proof (cases "pid \<notin> pending st \<or> pid \<in> visited st \<or> pm pid = None")
    case True
    then show ?thesis by auto
  next
    case False
    then obtain prompt where pr: "pm pid = Some prompt" by auto
    let ?st1 = "st\<lparr>visited := insert pid (visited st)\<rparr>"
    from False have g: "\<not> pid \<notin> pending st" "\<not> pid \<in> visited st" by auto
    have eq: "pending st - insert pid (visited st) = (pending st - visited st) - {pid}" by auto
    have "card ((pending st - visited st) - {pid}) < card (pending st - visited st)"
      by (rule card_Diff1_less) (use g "2.prems"(2) in auto)
    then have "card (pending st - insert pid (visited st)) < card (pending st - visited st)"
      by (simp only: eq)
    with "2.prems"(3) have c: "card (pending ?st1 - visited ?st1) < n" by simp
    have f: "finite (pending ?st1)" using "2.prems"(2) by simp
    from "2.IH"[OF g pr "2.prems"(1) f c] obtain st2 where
      "resolve_deps n pm (contextRequired prompt) ?st1 = Some st2" by blast
    with g pr show ?thesis by simp
  qed
next
  case (3 n pm st)
  then show ?case by simp
next
  case (4 n pm depId deps st)
  show ?case
  proof (cases "pm depId \<noteq> None")
    case True
    from "4.IH"(1)[OF True "4.prems"] obtain st1 where a: "resolve n pm depId st = Some st1"
      by blast
    from resolve_sound(1)[OF "4.prems"(1) a] have "resolve_step pm st st1" by simp
    from resolve_step_card[OF this "4.prems"(2)] "4.prems"(3)
    have f: "finite (pending st1)" and c: "card (pending st1 - visited st1) < n" by auto
    from "4.IH"(2)[OF True a "4.prems"(1) f c] obtain st2 where "resolve_deps n pm deps st1 = Some st2"
      by blast
    with True a show ?thesis by simp
  next
    case False
    with "4.IH"(3)[OF _ "4.prems"] show ?thesis by simp
  qed
qed

lemma promptMap_of_fold:
  "fold (\<lambda>p m. m(prompt_id p \<mapsto> p)) ps m0 k = Some q \<Longrightarrow>
     (q \<in> set ps \<and> prompt_id q = k) \<or> m0 k = Some q"
proof (induction ps arbitrary: m0)
  case Nil
  then show ?case by simp
next
  case (Cons a ps)
  from Cons.prems have "fold (\<lambda>p m. m(prompt_id p \<mapsto> p)) ps (m0(prompt_id a \<mapsto> a)) k = Some q"
    by (simp only: fold_simps)
  from Cons.IH[OF this] show ?case by (auto split: if_splits)
qed

lemma promptMap_of_dom:
  "dom (fold (\<lambda>p m. m(prompt_id p \<mapsto> p)) ps m0) = dom m0 \<union> prompt_id ` set ps"
  by (induction ps arbitrary: m0) auto

lemma promptMap_of_keyed: "keyed (promptMap_of ps)"
  unfolding keyed_def promptMap_of_def using promptMap_of_fold[of ps Map.empty] by auto

lemma promptMap_of_mem: "promptMap_of ps k = Some q \<Longrightarrow> q \<in> set ps"
  unfolding promptMap_of_def using promptMap_of_fold[of ps Map.empty] by auto

lemma promptMap_of_defined: "p \<in> set ps \<Longrightarrow> promptMap_of ps (prompt_id p) \<noteq> None"
  using promptMap_of_dom[of ps Map.empty] unfolding promptMap_of_def by (auto simp: dom_def)

lemma resolve_all_sound:
  assumes "keyed pm" "finite pend" "card pend < n" "\<forall>p\<in>set ps. pm (prompt_id p) \<noteq> None"
    "resolve_inv pm pend res"
  shows "\<exists>pend' res'. resolve_all n pm ps (pend, res) = Some (pend', res')
           \<and> resolve_inv pm pend' res' \<and> pend' \<subseteq> pend - set (ids ps)
           \<and> set (ids res') \<union> pend' = set (ids res) \<union> pend"
  using assms(2-)
proof (induction ps arbitrary: pend res)
  case Nil
  then show ?case by (simp add: ids_def)
next
  case (Cons p ps)
  let ?st = "\<lparr>visited = {}, pending = pend, resolved = res\<rparr>"
  from resolve_total(1)[OF assms(1), of ?st n "prompt_id p"] Cons.prems(1,2)
  obtain st' where r: "resolve n pm (prompt_id p) ?st = Some st'" by auto
  from resolve_sound(1)[OF assms(1) r] Cons.prems(3)
  have st: "resolve_step pm ?st st'" and gone: "prompt_id p \<notin> pending st'" by auto
  from st have sub: "pending st' \<subseteq> pend"
    and un: "set (ids (resolved st')) \<union> pending st' = set (ids res) \<union> pend"
    and inv: "resolve_inv pm (pending st') (resolved st')"
    using Cons.prems(4) by (auto simp: resolve_step_def)
  from sub Cons.prems(1,2) have f: "finite (pending st')" and c: "card (pending st') < n"
    by (auto intro: finite_subset dest: card_mono[rotated])
  from Cons.prems(3) have d: "\<forall>p\<in>set ps. pm (prompt_id p) \<noteq> None" by simp
  from Cons.IH[OF f c d inv] obtain pend' res' where
    ra: "resolve_all n pm ps (pending st', resolved st') = Some (pend', res')"
    and i': "resolve_inv pm pend' res'" and s': "pend' \<subseteq> pending st' - set (ids ps)"
    and u': "set (ids res') \<union> pend' = set (ids (resolved st')) \<union> pending st'"
    by blast
  have "resolve_all n pm (p # ps) (pend, res) = Some (pend', res')" using r ra by simp
  moreover have "pend' \<subseteq> pend - set (ids (p # ps))" using s' sub gone by (auto simp: ids_def)
  moreover have "set (ids res') \<union> pend' = set (ids res) \<union> pend" using u' un by simp
  ultimately show ?case using i' by blast
qed

text \<open>
  The resolver is total and loses nothing: for every input list it returns a list in which
  every id of the input occurs exactly once, made of prompts of the input.
\<close>

lemma resolve_each_id_once:
  "\<exists>r. resolvePromptDependencies ps = Some r \<and> distinct (ids r)
        \<and> set (ids r) = set (ids ps) \<and> set r \<subseteq> set ps"
proof -
  let ?pm = "promptMap_of ps" and ?pend = "set (ids ps)"
  have "card ?pend \<le> length ps" using card_length[of "ids ps"] by (simp add: ids_def)
  then have c: "card ?pend < Suc (length ps)" by simp
  have d: "\<forall>p\<in>set ps. ?pm (prompt_id p) \<noteq> None" using promptMap_of_defined by blast
  have i: "resolve_inv ?pm ?pend []" by (simp add: resolve_inv_def ids_def)
  from resolve_all_sound[OF promptMap_of_keyed _ c d i] obtain pend' res' where
    ra: "resolve_all (Suc (length ps)) ?pm ps (?pend, []) = Some (pend', res')"
    and inv: "resolve_inv ?pm pend' res'" and sub: "pend' \<subseteq> ?pend - set (ids ps)"
    and un: "set (ids res') \<union> pend' = set (ids []) \<union> ?pend"
    by auto
  from sub have e: "pend' = {}" by auto
  have r: "resolvePromptDependencies ps = Some res'"
    using ra by (simp add: resolvePromptDependencies_def resolvePromptDependencies_fuel_def ids_def)
  from inv have "distinct (ids res')" and m: "\<forall>q\<in>set res'. ?pm (prompt_id q) = Some q"
    by (simp_all add: resolve_inv_def)
  moreover from un e have "set (ids res') = set (ids ps)" by (simp add: ids_def)
  moreover from m have "set res' \<subseteq> set ps" using promptMap_of_mem by blast
  ultimately show ?thesis using r by blast
qed


text \<open>A larger depth bound does not change a result.\<close>

lemma resolve_fuel_mono:
  "resolve n pm pid st = Some st' \<Longrightarrow> n \<le> m \<Longrightarrow> resolve m pm pid st = Some st'"
  "resolve_deps n pm ds st = Some st' \<Longrightarrow> n \<le> m \<Longrightarrow> resolve_deps m pm ds st = Some st'"
proof (induction n pm pid st and n pm ds st arbitrary: st' m and st' m rule: resolve_resolve_deps.induct)
  case (1 pm pid st)
  then show ?case by simp
next
  case (2 n pm pid st)
  from "2.prems"(2) obtain m' where m: "m = Suc m'" and le: "n \<le> m'" by (cases m) auto
  show ?case
  proof (cases "pid \<notin> pending st \<or> pid \<in> visited st \<or> pm pid = None")
    case True
    with "2.prems"(1) have "st' = st" by (auto split: if_splits)
    with True show ?thesis unfolding m by auto
  next
    case False
    then obtain prompt where pr: "pm pid = Some prompt" by auto
    from False have g: "\<not> pid \<notin> pending st" "\<not> pid \<in> visited st" by auto
    from g pr "2.prems"(1) obtain st2 where
      r: "resolve_deps n pm (contextRequired prompt) (st\<lparr>visited := insert pid (visited st)\<rparr>) = Some st2"
      and st': "st' = st2\<lparr>pending := pending st2 - {pid}, resolved := resolved st2 @ [prompt]\<rparr>"
      by (auto split: option.splits)
    have "resolve_deps m' pm (contextRequired prompt) (st\<lparr>visited := insert pid (visited st)\<rparr>) = Some st2"
      by (rule "2.IH"[OF g pr r le])
    with g pr st' show ?thesis unfolding m by simp
  qed
next
  case (3 n pm st)
  then show ?case by simp
next
  case (4 n pm depId deps st)
  show ?case
  proof (cases "pm depId \<noteq> None")
    case True
    with "4.prems"(1) obtain st1 where a: "resolve n pm depId st = Some st1"
      and b: "resolve_deps n pm deps st1 = Some st'"
      by (auto split: option.splits)
    have "resolve m pm depId st = Some st1" by (rule "4.IH"(1)[OF True a "4.prems"(2)])
    moreover have "resolve_deps m pm deps st1 = Some st'"
      by (rule "4.IH"(2)[OF True a b "4.prems"(2)])
    ultimately show ?thesis using True by simp
  next
    case False
    then have "resolve_deps n pm deps st = Some st'" using "4.prems"(1) by simp
    from "4.IH"(3)[OF _ this "4.prems"(2)] False show ?thesis by simp
  qed
qed

lemma occurrences_absent: "pid \<notin> set (ids r) \<Longrightarrow> occurrences pid r = 0"
  by (induction r) (auto simp: ids_def occurrences_def)

lemma occurrences_distinct:
  "distinct (ids r) \<Longrightarrow> pid \<in> set (ids r) \<Longrightarrow> occurrences pid r = 1"
proof (induction r)
  case Nil
  then show ?case by (simp add: ids_def)
next
  case (Cons q r)
  show ?case
  proof (cases "prompt_id q = pid")
    case True
    with Cons.prems(1) have "pid \<notin> set (ids r)" by (auto simp: ids_def)
    from occurrences_absent[OF this] True show ?thesis by (simp add: occurrences_def)
  next
    case False
    with Cons.prems have "distinct (ids r)" "pid \<in> set (ids r)" by (auto simp: ids_def)
    from Cons.IH[OF this] False show ?thesis by (simp add: occurrences_def)
  qed
qed

lemma resolve_chain:
  assumes "contextRequired A = []" "contextRequired B = [prompt_id A]"
    "contextRequired C = [prompt_id B]"
    "prompt_id A \<noteq> prompt_id B" "prompt_id A \<noteq> prompt_id C" "prompt_id B \<noteq> prompt_id C"
  shows "resolvePromptDependencies [A, B, C] = Some [A, B, C]"
    "resolvePromptDependencies [A, C, B] = Some [A, B, C]"
    "resolvePromptDependencies [B, A, C] = Some [A, B, C]"
    "resolvePromptDependencies [B, C, A] = Some [A, B, C]"
    "resolvePromptDependencies [C, A, B] = Some [A, B, C]"
    "resolvePromptDependencies [C, B, A] = Some [A, B, C]"
  using assms
  by (simp_all add: resolvePromptDependencies_def resolvePromptDependencies_fuel_def promptMap_of_def)

text \<open>
  C3. For prompts \<open>A\<close> (no dependencies), \<open>B\<close> (depending on \<open>A\<close>) and \<open>C\<close> (depending on
  \<open>B\<close>) with distinct ids, the resolver returns \<open>[A, B, C]\<close> for each of the six input
  orders. For every input list that holds two prompts \<open>X\<close> and \<open>Y\<close> depending on each
  other, the resolver returns a list in which the id of \<open>X\<close> and the id of \<open>Y\<close> each occur
  exactly once: the revisited prompt is skipped (after \<^verbatim>\<open>console.warn\<close>), no error is
  raised.
\<close>

theorem resolver_chain_and_cycle:
  "(contextRequired A = [] \<and> contextRequired B = [prompt_id A] \<and> contextRequired C = [prompt_id B]
     \<and> distinct [prompt_id A, prompt_id B, prompt_id C]
     \<and> ps \<in> set [[A, B, C], [A, C, B], [B, A, C], [B, C, A], [C, A, B], [C, B, A]]
     \<longrightarrow> resolvePromptDependencies ps = Some [A, B, C])
   \<and> (X \<in> set qs \<and> Y \<in> set qs \<and> prompt_id X \<noteq> prompt_id Y
       \<and> prompt_id Y \<in> set (contextRequired X) \<and> prompt_id X \<in> set (contextRequired Y)
     \<longrightarrow> (\<exists>r. resolvePromptDependencies qs = Some r
              \<and> occurrences (prompt_id X) r = 1 \<and> occurrences (prompt_id Y) r = 1))"
proof (intro conjI impI)
  assume a: "contextRequired A = [] \<and> contextRequired B = [prompt_id A] \<and> contextRequired C = [prompt_id B]
     \<and> distinct [prompt_id A, prompt_id B, prompt_id C]
     \<and> ps \<in> set [[A, B, C], [A, C, B], [B, A, C], [B, C, A], [C, A, B], [C, B, A]]"
  then have d: "contextRequired A = []" "contextRequired B = [prompt_id A]"
    "contextRequired C = [prompt_id B]"
    "prompt_id A \<noteq> prompt_id B" "prompt_id A \<noteq> prompt_id C" "prompt_id B \<noteq> prompt_id C"
    by simp_all
  from a have "ps = [A, B, C] \<or> ps = [A, C, B] \<or> ps = [B, A, C]
    \<or> ps = [B, C, A] \<or> ps = [C, A, B] \<or> ps = [C, B, A]" by simp
  then show "resolvePromptDependencies ps = Some [A, B, C]"
    using resolve_chain[OF d] by (elim disjE) simp_all
next
  assume c: "X \<in> set qs \<and> Y \<in> set qs \<and> prompt_id X \<noteq> prompt_id Y
       \<and> prompt_id Y \<in> set (contextRequired X) \<and> prompt_id X \<in> set (contextRequired Y)"
  from resolve_each_id_once[of qs] obtain r where r: "resolvePromptDependencies qs = Some r"
    and d: "distinct (ids r)" and s: "set (ids r) = set (ids qs)" by blast
  from c s have "prompt_id X \<in> set (ids r)" "prompt_id Y \<in> set (ids r)" by (auto simp: ids_def)
  with d r show "\<exists>r. resolvePromptDependencies qs = Some r
              \<and> occurrences (prompt_id X) r = 1 \<and> occurrences (prompt_id Y) r = 1"
    by (auto simp: occurrences_distinct)
qed

text \<open>The theorem at the input order \<open>[C, A, B]\<close> and at the cycle \<open>A \<rightarrow> B \<rightarrow> A\<close>.\<close>

theorem resolver_chain_and_cycle_witness:
  "resolvePromptDependencies [task ''C'' [''B''], task ''A'' [], task ''B'' [''A'']]
     = Some [task ''A'' [], task ''B'' [''A''], task ''C'' [''B'']]
   \<and> (\<exists>r. resolvePromptDependencies [task ''A'' [''B''], task ''B'' [''A'']] = Some r
          \<and> occurrences ''A'' r = 1 \<and> occurrences ''B'' r = 1)"
proof -
  have 1: "resolvePromptDependencies [task ''C'' [''B''], task ''A'' [], task ''B'' [''A'']]
     = Some [task ''A'' [], task ''B'' [''A''], task ''C'' [''B'']]"
    using resolver_chain_and_cycle[of "task ''A'' []" "task ''B'' [''A'']" "task ''C'' [''B'']"
                    "[task ''C'' [''B''], task ''A'' [], task ''B'' [''A'']]"]
    by (simp add: task_def)
  have 2: "\<exists>r. resolvePromptDependencies [task ''A'' [''B''], task ''B'' [''A'']] = Some r
          \<and> occurrences ''A'' r = 1 \<and> occurrences ''B'' r = 1"
    using resolver_chain_and_cycle[of _ _ _ _ "task ''A'' [''B'']" "[task ''A'' [''B''], task ''B'' [''A'']]" "task ''B'' [''A'']"]
    by (simp add: task_def)
  from 1 2 show ?thesis by blast
qed

end
